theory Spec2Isabelle
  imports Main "HOL-Library.Sublist"
begin

section \<open>Data model\<close>

text \<open>
  A Python \<open>bytes\<close> object is a finite sequence of 8-bit values. HOL's \<open>char\<close> is exactly
  an 8-bit value, so a byte is a \<open>char\<close> and a byte string is a \<open>char list\<close>; the literal
  \<open>b"P7\n"\<close> is \<open>''P7\<newline>''\<close>.
\<close>

type_synonym byte = char
type_synonym bytes = "char list"

text \<open>
  The exceptions that can leave \<open>perform_conversion\<close>: the two \<open>ValueError\<close>s it raises
  itself, the \<open>ValueError\<close> of \<open>bytes.index\<close>, the \<open>StopIteration\<close> of a one-argument
  \<open>next\<close>, \<open>CalledProcessError\<close> and \<open>OSError\<close> from \<open>subprocess.run\<close>, and \<open>OSError\<close>
  from \<open>open\<close>.
\<close>

datatype error =
    ValueError string
  | StopIteration
  | CalledProcessError
  | OSError

definition END_HEADER_CHUNK :: bytes where
  "END_HEADER_CHUNK = ''\<newline>ENDHDR\<newline>''"

section \<open>The built-ins of \<open>bytes\<close> that the converter calls\<close>

text \<open>\<open>s.startswith(p)\<close>.\<close>

definition startswith :: "bytes \<Rightarrow> bytes \<Rightarrow> bool" where
  "startswith s p = prefix p s"

text \<open>
  \<open>s.index(sub)\<close>: the lowest index at which \<open>sub\<close> occurs in \<open>s\<close>; \<open>ValueError\<close> when
  it occurs nowhere. \<open>find_sub\<close> scans from the left and compares \<open>sub\<close> with the
  bytes at each position.
\<close>

fun find_sub :: "bytes \<Rightarrow> bytes \<Rightarrow> nat option" where
  "find_sub sub [] = (if sub = [] then Some 0 else None)"
| "find_sub sub (x # xs) =
     (if prefix sub (x # xs) then Some 0 else map_option Suc (find_sub sub xs))"

definition bytes_index :: "bytes \<Rightarrow> bytes \<Rightarrow> error + nat" where
  "bytes_index s sub =
     (case find_sub sub s of
        None \<Rightarrow> Inl (ValueError ''subsection not found'')
      | Some i \<Rightarrow> Inr i)"

section \<open>The converter\<close>

text \<open>
  The loop of \<open>perform_conversion\<close> that rearranges the bytes. The first argument is what is
  left of \<open>pam_iter\<close>, the second is \<open>argb_data_list\<close>.
  \<^item> \<open>r = next(pam_iter, None)\<close> on an exhausted iterator gives \<open>None\<close> and the loop breaks:
    the first equation.
  \<^item> \<open>next(pam_iter)\<close> for \<open>g\<close>, \<open>b\<close> and \<open>a\<close> raises \<open>StopIteration\<close> on an exhausted
    iterator: the last equation, which is reached with one, two or three bytes left.
  \<^item> otherwise the four appends, and the next round: the second equation.
\<close>

fun rearrange :: "bytes \<Rightarrow> bytes \<Rightarrow> error + bytes" where
  "rearrange [] argb_data_list = Inr argb_data_list"
| "rearrange (r # g # b # a # pam_iter) argb_data_list =
     rearrange pam_iter (argb_data_list @ [a] @ [r] @ [g] @ [b])"
| "rearrange _ argb_data_list = Inl StopIteration"

text \<open>
  Lines 25 to 49 of \<open>perform_conversion\<close>: from the bytes that the decoder returned to
  \<open>argb_data\<close>, the bytes that are written out. The specification calls this part \<open>convert\<close>.
  The slice \<open>pam[end_header_index:]\<close> is \<open>drop\<close>, which like the slice gives the empty
  sequence when the index is the length. \<open>bytes(argb_data_list)\<close> changes nothing here: the
  list holds values that came out of a \<open>bytes\<close> object, all in the range of a byte.
\<close>

definition convert :: "bytes \<Rightarrow> error + bytes" where
  "convert pam =
     (if \<not> startswith pam ''P7\<newline>'' then
        Inl (ValueError ''pngtopam returned an invalid PAM file'')
      else
        case bytes_index pam END_HEADER_CHUNK of
          Inl e \<Rightarrow> Inl e
        | Inr end_header_start_index \<Rightarrow>
            let end_header_index = end_header_start_index + length END_HEADER_CHUNK;
                pam_data = drop end_header_index pam
            in if length pam_data \<noteq> 4 * 32 * 32 then
                 Inl (ValueError
                   ''PAM payload has the wrong length, is this a 32x32 ARGB8888 icon?'')
               else rearrange pam_data [])"

section \<open>The environment: the decoder and the file system\<close>

text \<open>
  \<open>png2pam\<close> runs the external program \<open>pngtopam -alphapam\<close> and returns its standard
  output; with \<open>check=True\<close> a non-zero exit status raises. The program is a parameter of
  the model: a function from the path to its output or to the error raised.
\<close>

definition png2pam :: "(string \<Rightarrow> error + bytes) \<Rightarrow> string \<Rightarrow> error + bytes" where
  "png2pam pngtopam png_path = pngtopam png_path"

text \<open>
  The file system: the contents of the files, the paths that cannot be opened for writing,
  and the log of the operations done on files, in order.
\<close>

datatype io_event = Open_wb string | Write string bytes | Close string

record world =
  files :: "string \<rightharpoonup> bytes"
  unwritable :: "string set"
  events :: "io_event list"

text \<open>\<open>open(path, "wb")\<close> creates the file or truncates it.\<close>

definition open_wb :: "string \<Rightarrow> world \<Rightarrow> error + world" where
  "open_wb path w =
     (if path \<in> unwritable w then Inl OSError
      else Inr (w\<lparr>files := (files w)(path \<mapsto> []), events := events w @ [Open_wb path]\<rparr>))"

definition write_file :: "string \<Rightarrow> bytes \<Rightarrow> world \<Rightarrow> world" where
  "write_file path data w =
     w\<lparr>files := (files w)(path \<mapsto> (case files w path of None \<Rightarrow> data | Some old \<Rightarrow> old @ data)),
       events := events w @ [Write path data]\<rparr>"

definition close_file :: "string \<Rightarrow> world \<Rightarrow> world" where
  "close_file path w = w\<lparr>events := events w @ [Close path]\<rparr>"

text \<open>
  \<open>perform_conversion\<close> returns nothing; the model returns the exception that left it, if
  any, and the file system afterwards.
\<close>

definition perform_conversion ::
  "(string \<Rightarrow> error + bytes) \<Rightarrow> string \<Rightarrow> string \<Rightarrow> world \<Rightarrow> error option \<times> world" where
  "perform_conversion pngtopam input_png_path output_bin_path w =
     (case png2pam pngtopam input_png_path of
        Inl e \<Rightarrow> (Some e, w)
      | Inr pam \<Rightarrow>
          (case convert pam of
             Inl e \<Rightarrow> (Some e, w)
           | Inr argb_data \<Rightarrow>
               (case open_wb output_bin_path w of
                  Inl e \<Rightarrow> (Some e, w)
                | Inr f \<Rightarrow>
                    (None, close_file output_bin_path (write_file output_bin_path argb_data f)))))"

section \<open>What the specification says the output is\<close>

text \<open>
  The specification describes the payload as pixel groups \<open>(r, g, b, a)\<close> and the output as
  the groups \<open>(a, r, g, b)\<close> in the same pixel order. These two functions write out a list
  of pixels in either layout; \<open>permute_groups\<close> is the reordering on the bytes themselves.
\<close>

type_synonym pixel = "byte \<times> byte \<times> byte \<times> byte"

definition rgba_bytes :: "pixel list \<Rightarrow> bytes" where
  "rgba_bytes ps = concat (map (\<lambda>(r, g, b, a). [r, g, b, a]) ps)"

definition argb_bytes :: "pixel list \<Rightarrow> bytes" where
  "argb_bytes ps = concat (map (\<lambda>(r, g, b, a). [a, r, g, b]) ps)"

fun permute_groups :: "bytes \<Rightarrow> bytes" where
  "permute_groups (r # g # b # a # rest) = a # r # g # b # permute_groups rest"
| "permute_groups _ = []"

text \<open>
  The specification's payload is "everything after the end-of-header marker", the marker
  being the first one. \<open>first_occurrence sub xs pre post\<close> says so without reference to
  the search: \<open>xs\<close> is \<open>pre\<close>, then \<open>sub\<close>, then \<open>post\<close>, and \<open>sub\<close> occurs at no
  earlier position of \<open>xs\<close>.
\<close>

definition first_occurrence :: "bytes \<Rightarrow> bytes \<Rightarrow> bytes \<Rightarrow> bytes \<Rightarrow> bool" where
  "first_occurrence sub xs pre post \<longleftrightarrow>
     xs = pre @ sub @ post \<and> (\<forall>p q. xs = p @ sub @ q \<longrightarrow> length pre \<le> length p)"


section \<open>The loop\<close>

lemma rearrange_eq:
  "rearrange xs acc =
     (if length xs mod 4 = 0 then Inr (acc @ permute_groups xs) else Inl StopIteration)"
  by (induction xs acc rule: rearrange.induct) simp_all

lemma length_permute_groups:
  "length (permute_groups xs) = 4 * (length xs div 4)"
proof (induction xs rule: permute_groups.induct)
  case (1 r g b a rest)
  have "(4 + length rest) div 4 = Suc (length rest div 4)"
    by simp
  with 1 show ?case
    by simp
qed simp_all

lemma permute_groups_rgba: "permute_groups (rgba_bytes ps) = argb_bytes ps"
  by (induction ps) (auto simp: rgba_bytes_def argb_bytes_def)

lemma length_rgba_bytes: "length (rgba_bytes ps) = 4 * length ps"
  by (induction ps) (auto simp: rgba_bytes_def)

lemma length_argb_bytes: "length (argb_bytes ps) = 4 * length ps"
  by (induction ps) (auto simp: argb_bytes_def)

lemma permute_groups_replicate:
  "permute_groups (concat (replicate n [r, g, b, a])) = concat (replicate n [a, r, g, b])"
  by (induction n) simp_all

section \<open>The search for the marker\<close>

lemma find_sub_occurs:
  "find_sub sub xs = Some i \<Longrightarrow> i \<le> length xs \<and> prefix sub (drop i xs)"
proof (induction xs arbitrary: i)
  case Nil
  then show ?case by (simp split: if_splits)
next
  case (Cons x xs)
  then show ?case by (auto split: if_splits)
qed

lemma find_sub_least:
  "find_sub sub xs = Some i \<Longrightarrow> j < i \<Longrightarrow> \<not> prefix sub (drop j xs)"
proof (induction xs arbitrary: i j)
  case Nil
  then show ?case by (simp split: if_splits)
next
  case (Cons x xs)
  show ?case
  proof (cases j)
    case 0
    with Cons.prems show ?thesis by (auto split: if_splits)
  next
    case (Suc k)
    with Cons.prems Cons.IH show ?thesis by (auto split: if_splits)
  qed
qed

lemma find_sub_None:
  "find_sub sub xs = None \<Longrightarrow> \<not> prefix sub (drop j xs)"
proof (induction xs arbitrary: j)
  case Nil
  then show ?case by (simp split: if_splits)
next
  case (Cons x xs)
  show ?case
  proof (cases j)
    case 0
    with Cons.prems show ?thesis by (auto split: if_splits)
  next
    case (Suc k)
    with Cons.prems Cons.IH show ?thesis by (auto split: if_splits)
  qed
qed

lemma prefix_drop_occurrence:
  assumes "i \<le> length xs" and "prefix sub (drop i xs)"
  shows "\<exists>q. xs = take i xs @ sub @ q \<and> length (take i xs) = i"
proof -
  from assms(2) obtain q where "drop i xs = sub @ q"
    by (auto simp: prefix_def)
  then have "xs = take i xs @ sub @ q"
    by (metis append_take_drop_id)
  with assms(1) show ?thesis
    by auto
qed

lemma find_sub_first:
  assumes occ: "xs = pre @ sub @ post"
    and first: "\<forall>p q. xs = p @ sub @ q \<longrightarrow> length pre \<le> length p"
  shows "find_sub sub xs = Some (length pre)"
proof (cases "find_sub sub xs")
  case None
  from find_sub_None [OF None, of "length pre"] occ show ?thesis
    by simp
next
  case (Some i)
  from find_sub_occurs [OF Some] prefix_drop_occurrence [of i xs sub]
  obtain q where q: "xs = take i xs @ sub @ q" and len: "length (take i xs) = i"
    by blast
  from first q have "length pre \<le> length (take i xs)"
    by blast
  with len have "length pre \<le> i"
    by simp
  moreover have "\<not> length pre < i"
    using find_sub_least [OF Some, of "length pre"] occ by auto
  ultimately show ?thesis
    using Some by simp
qed

lemma find_sub_Some_first:
  assumes "find_sub sub xs = Some i"
  shows "(\<exists>q. xs = take i xs @ sub @ q) \<and> i \<le> length xs
         \<and> (\<forall>p q. xs = p @ sub @ q \<longrightarrow> i \<le> length p)"
proof -
  have "\<And>p q. xs = p @ sub @ q \<Longrightarrow> i \<le> length p"
  proof (rule ccontr)
    fix p q
    assume "xs = p @ sub @ q" and "\<not> i \<le> length p"
    then show False
      using find_sub_least [OF assms, of "length p"] by auto
  qed
  then show ?thesis
    using find_sub_occurs [OF assms] prefix_drop_occurrence [of i xs sub] by blast
qed

lemma find_sub_None_iff: "find_sub sub xs = None \<longleftrightarrow> \<not> sublist sub xs"
proof
  assume none: "find_sub sub xs = None"
  show "\<not> sublist sub xs"
  proof
    assume "sublist sub xs"
    then obtain p q where "xs = p @ sub @ q"
      by (auto simp: sublist_def)
    then have "prefix sub (drop (length p) xs)"
      by simp
    with find_sub_None [OF none] show False
      by blast
  qed
next
  assume n: "\<not> sublist sub xs"
  show "find_sub sub xs = None"
  proof (cases "find_sub sub xs")
    case (Some i)
    from find_sub_Some_first [OF Some] have "sublist sub xs"
      unfolding sublist_def by blast
    with n show ?thesis by simp
  qed simp
qed

lemma first_occurrence_iff:
  "first_occurrence sub xs pre post \<longleftrightarrow>
     xs = pre @ sub @ post \<and> find_sub sub xs = Some (length pre)"
proof
  assume "first_occurrence sub xs pre post"
  then show "xs = pre @ sub @ post \<and> find_sub sub xs = Some (length pre)"
    unfolding first_occurrence_def using find_sub_first [of xs pre sub post] by blast
next
  assume a: "xs = pre @ sub @ post \<and> find_sub sub xs = Some (length pre)"
  then have "\<forall>p q. xs = p @ sub @ q \<longrightarrow> length pre \<le> length p"
    using find_sub_Some_first [of sub xs "length pre"] by blast
  with a show "first_occurrence sub xs pre post"
    unfolding first_occurrence_def by blast
qed

lemma find_sub_first_occurrence:
  assumes "find_sub sub xs = Some i"
  shows "first_occurrence sub xs (take i xs) (drop (i + length sub) xs)"
proof -
  from find_sub_Some_first [OF assms] obtain q
    where q: "xs = take i xs @ sub @ q" and i: "i \<le> length xs"
      and least: "\<forall>p q. xs = p @ sub @ q \<longrightarrow> i \<le> length p"
    by blast
  from q have "drop (i + length sub) xs = drop (i + length sub) (take i xs @ sub @ q)"
    by simp
  also have "\<dots> = q"
    using i by simp
  finally have "drop (i + length sub) xs = q" .
  with q i least show ?thesis
    unfolding first_occurrence_def by simp
qed

section \<open>The converter as a whole\<close>

lemma convert_eq:
  "convert pam =
     (if \<not> startswith pam ''P7\<newline>'' then
        Inl (ValueError ''pngtopam returned an invalid PAM file'')
      else case find_sub END_HEADER_CHUNK pam of
        None \<Rightarrow> Inl (ValueError ''subsection not found'')
      | Some i \<Rightarrow>
          if length (drop (i + length END_HEADER_CHUNK) pam) = 4096 then
            Inr (permute_groups (drop (i + length END_HEADER_CHUNK) pam))
          else Inl (ValueError
                 ''PAM payload has the wrong length, is this a 32x32 ARGB8888 icon?''))"
  by (simp add: convert_def bytes_index_def rearrange_eq Let_def split: option.split)

lemma convert_first_occurrence:
  assumes "startswith pam ''P7\<newline>''" and "first_occurrence END_HEADER_CHUNK pam pre payload"
  shows "convert pam =
     (if length payload = 4096 then Inr (permute_groups payload)
      else Inl (ValueError
             ''PAM payload has the wrong length, is this a 32x32 ARGB8888 icon?''))"
proof -
  from assms(2) have pam: "pam = pre @ END_HEADER_CHUNK @ payload"
    and found: "find_sub END_HEADER_CHUNK pam = Some (length pre)"
    unfolding first_occurrence_iff by blast+
  have "drop (length pre + length END_HEADER_CHUNK) pam = payload"
    by (subst pam) simp
  with assms(1) found show ?thesis
    by (simp add: convert_eq)
qed

text \<open>
  On success the output file is opened, written once with the converted bytes, and closed.
\<close>

lemma perform_conversion_writes:
  assumes "png2pam pngtopam input_png_path = Inr pam" and "convert pam = Inr argb_data"
    and "output_bin_path \<notin> unwritable w"
  shows "perform_conversion pngtopam input_png_path output_bin_path w =
     (None, w\<lparr>files := (files w)(output_bin_path \<mapsto> argb_data),
              events := events w
                @ [Open_wb output_bin_path, Write output_bin_path argb_data,
                   Close output_bin_path]\<rparr>)"
  using assms
  by (simp add: perform_conversion_def open_wb_def write_file_def close_file_def)

section \<open>The conversion of a valid container\<close>

text \<open>
  Claim C1. Let a container start with the signature, let its first end-of-header marker
  be followed by the payload, and let the payload be the 1024 pixel groups
  \<open>(r, g, b, a)\<close> of a pixel list. Then the conversion succeeds, and its output is the
  4096 bytes of the groups \<open>(a, r, g, b)\<close> of the same pixels in the same order.
\<close>

theorem convert_rgba_to_argb:
  assumes "startswith pam ''P7\<newline>''"
    and "first_occurrence END_HEADER_CHUNK pam pre (rgba_bytes pixels)"
    and "length pixels = 1024"
  shows "convert pam = Inr (argb_bytes pixels) \<and> length (argb_bytes pixels) = 4096"
  using assms
  by (simp add: convert_first_occurrence length_rgba_bytes length_argb_bytes permute_groups_rgba)

theorem convert_rgba_to_argb_witness:
  "convert (''P7'' @ END_HEADER_CHUNK
       @ rgba_bytes (replicate 1024 (CHR 0x01, CHR 0x02, CHR 0x03, CHR 0xFF)))
     = Inr (argb_bytes (replicate 1024 (CHR 0x01, CHR 0x02, CHR 0x03, CHR 0xFF)))
   \<and> length (argb_bytes (replicate 1024 (CHR 0x01, CHR 0x02, CHR 0x03, CHR 0xFF))) = 4096"
proof -
  let ?pixels = "replicate 1024 (CHR 0x01, CHR 0x02, CHR 0x03, CHR 0xFF)"
  let ?pam = "''P7'' @ END_HEADER_CHUNK @ rgba_bytes ?pixels"
  have sig: "startswith ?pam ''P7\<newline>''"
    by (simp add: startswith_def END_HEADER_CHUNK_def)
  have first: "first_occurrence END_HEADER_CHUNK ?pam ''P7'' (rgba_bytes ?pixels)"
    by (simp add: first_occurrence_iff END_HEADER_CHUNK_def)
  have len: "length ?pixels = 1024"
    by simp
  show ?thesis
    by (rule convert_rgba_to_argb [OF sig first len])
qed

text \<open>
  Claim C2. Whenever the conversion succeeds, the payload that passed the length check
  (the bytes after the first marker) is 4096 bytes long and the output has the length of
  that payload: no byte is added and none is dropped.
\<close>

theorem convert_preserves_length:
  assumes "convert pam = Inr out"
  shows "\<exists>pre payload. first_occurrence END_HEADER_CHUNK pam pre payload
           \<and> length payload = 4096 \<and> length out = length payload"
proof -
  from assms obtain i where found: "find_sub END_HEADER_CHUNK pam = Some i"
    and len: "length (drop (i + length END_HEADER_CHUNK) pam) = 4096"
    and out: "out = permute_groups (drop (i + length END_HEADER_CHUNK) pam)"
    by (auto simp: convert_eq split: if_splits option.splits)
  from out len have "length out = length (drop (i + length END_HEADER_CHUNK) pam)"
    by (simp only: length_permute_groups) simp
  with find_sub_first_occurrence [OF found] len show ?thesis
    by blast
qed

theorem convert_preserves_length_witness:
  "convert (''P7'' @ END_HEADER_CHUNK @ replicate 4096 (CHR 0x2A))
     = Inr (permute_groups (replicate 4096 (CHR 0x2A)))
   \<and> (\<exists>pre payload.
         first_occurrence END_HEADER_CHUNK
           (''P7'' @ END_HEADER_CHUNK @ replicate 4096 (CHR 0x2A)) pre payload
         \<and> length payload = 4096
         \<and> length (permute_groups (replicate 4096 (CHR 0x2A))) = length payload)"
proof -
  let ?pam = "''P7'' @ END_HEADER_CHUNK @ replicate 4096 (CHR 0x2A)"
  have sig: "startswith ?pam ''P7\<newline>''"
    by (simp add: startswith_def END_HEADER_CHUNK_def)
  have first: "first_occurrence END_HEADER_CHUNK ?pam ''P7'' (replicate 4096 (CHR 0x2A))"
    by (simp add: first_occurrence_iff END_HEADER_CHUNK_def)
  have ok: "convert ?pam = Inr (permute_groups (replicate 4096 (CHR 0x2A)))"
    using convert_first_occurrence [OF sig first] by simp
  from ok convert_preserves_length [OF ok] show ?thesis
    by blast
qed

section \<open>Rejected containers\<close>

text \<open>
  Claim C3. A container that does not start with the signature \<open>P7\<close>, newline, is
  rejected with the \<open>ValueError\<close> of the signature check, whatever follows: the marker is
  not searched and the payload is not looked at, so a container that also lacks the marker
  gets this error and not the one of the search.
\<close>

theorem convert_bad_signature:
  "\<not> startswith pam ''P7\<newline>'' \<Longrightarrow>
     convert pam = Inl (ValueError ''pngtopam returned an invalid PAM file'')"
  by (simp add: convert_def)

theorem convert_bad_signature_witness:
  "\<not> startswith ''P6\<newline>32 32\<newline>255\<newline>'' ''P7\<newline>''
   \<and> \<not> sublist END_HEADER_CHUNK ''P6\<newline>32 32\<newline>255\<newline>''
   \<and> convert ''P6\<newline>32 32\<newline>255\<newline>'' =
       Inl (ValueError ''pngtopam returned an invalid PAM file'')"
proof -
  have sig: "\<not> startswith ''P6\<newline>32 32\<newline>255\<newline>'' ''P7\<newline>''"
    by (simp add: startswith_def)
  have "find_sub END_HEADER_CHUNK ''P6\<newline>32 32\<newline>255\<newline>'' = None"
    by (simp add: END_HEADER_CHUNK_def)
  then have "\<not> sublist END_HEADER_CHUNK ''P6\<newline>32 32\<newline>255\<newline>''"
    using find_sub_None_iff by blast
  with sig convert_bad_signature [OF sig] show ?thesis
    by blast
qed

text \<open>
  Claim C4. A container that starts with the signature and in which the end-of-header
  marker occurs nowhere is rejected with the \<open>ValueError\<close> of the search,
  \<open>subsection not found\<close>; no output bytes are produced.
\<close>

theorem convert_missing_marker:
  assumes "startswith pam ''P7\<newline>''" and "\<not> sublist END_HEADER_CHUNK pam"
  shows "convert pam = Inl (ValueError ''subsection not found'')"
proof -
  from assms(2) have "find_sub END_HEADER_CHUNK pam = None"
    by (simp add: find_sub_None_iff)
  with assms(1) show ?thesis
    by (simp add: convert_eq)
qed

theorem convert_missing_marker_witness:
  "startswith ''P7\<newline>WIDTH 32\<newline>HEIGHT 32\<newline>ENDHDR'' ''P7\<newline>''
   \<and> \<not> sublist END_HEADER_CHUNK ''P7\<newline>WIDTH 32\<newline>HEIGHT 32\<newline>ENDHDR''
   \<and> convert ''P7\<newline>WIDTH 32\<newline>HEIGHT 32\<newline>ENDHDR'' =
       Inl (ValueError ''subsection not found'')"
proof -
  let ?pam = "''P7\<newline>WIDTH 32\<newline>HEIGHT 32\<newline>ENDHDR''"
  have sig: "startswith ?pam ''P7\<newline>''"
    by (simp add: startswith_def)
  have "find_sub END_HEADER_CHUNK ?pam = None"
    by (simp add: END_HEADER_CHUNK_def)
  then have absent: "\<not> sublist END_HEADER_CHUNK ?pam"
    using find_sub_None_iff by blast
  from sig absent convert_missing_marker [OF sig absent] show ?thesis
    by blast
qed

text \<open>
  Claim C5. For a container that starts with the signature and contains the marker, the
  conversion fails exactly when the payload after the first marker is not 4096 bytes long,
  and it then fails with the \<open>ValueError\<close> of the length check; it succeeds exactly
  when the payload is 4096 bytes long. Payloads of 4095, 4097 and 0 bytes are therefore
  rejected and one of 4096 bytes is accepted, as the instances after the theorem show.
\<close>

theorem convert_length_check:
  assumes "startswith pam ''P7\<newline>''"
    and "first_occurrence END_HEADER_CHUNK pam pre payload"
  shows "((convert pam = Inl (ValueError
            ''PAM payload has the wrong length, is this a 32x32 ARGB8888 icon?''))
          = (length payload \<noteq> 4096))
    \<and> ((\<exists>e. convert pam = Inl e) = (length payload \<noteq> 4096))
    \<and> ((\<exists>out. convert pam = Inr out) = (length payload = 4096))"
  using convert_first_occurrence [OF assms] by simp

theorem convert_length_check_witness:
  "convert (''P7'' @ END_HEADER_CHUNK @ replicate 4095 (CHR 0x00)) =
     Inl (ValueError ''PAM payload has the wrong length, is this a 32x32 ARGB8888 icon?'')
   \<and> convert (''P7'' @ END_HEADER_CHUNK @ replicate 4097 (CHR 0x00)) =
     Inl (ValueError ''PAM payload has the wrong length, is this a 32x32 ARGB8888 icon?'')
   \<and> convert (''P7'' @ END_HEADER_CHUNK @ []) =
     Inl (ValueError ''PAM payload has the wrong length, is this a 32x32 ARGB8888 icon?'')
   \<and> (\<exists>out. convert (''P7'' @ END_HEADER_CHUNK @ replicate 4096 (CHR 0x00)) = Inr out)"
proof -
  have sig: "startswith (''P7'' @ END_HEADER_CHUNK @ payload) ''P7\<newline>''" for payload
    by (simp add: startswith_def END_HEADER_CHUNK_def)
  have first: "first_occurrence END_HEADER_CHUNK (''P7'' @ END_HEADER_CHUNK @ payload)
                 ''P7'' payload" for payload
    by (simp add: first_occurrence_iff END_HEADER_CHUNK_def)
  show ?thesis
    using convert_length_check [OF sig first, of "replicate 4095 (CHR 0x00)"]
      convert_length_check [OF sig first, of "replicate 4097 (CHR 0x00)"]
      convert_length_check [OF sig first, of "[]"]
      convert_length_check [OF sig first, of "replicate 4096 (CHR 0x00)"]
    by simp
qed

section \<open>A concrete scenario\<close>

text \<open>
  Claim C6. In any valid container whose payload is 1024 repetitions of the group
  \<open>0x10 0x20 0x30 0x40\<close>, the output is 1024 repetitions of \<open>0x40 0x10 0x20 0x30\<close>.
\<close>

theorem convert_concrete_scenario:
  assumes "startswith pam ''P7\<newline>''"
    and "first_occurrence END_HEADER_CHUNK pam pre
           (concat (replicate 1024 [CHR 0x10, CHR 0x20, CHR 0x30, CHR 0x40]))"
  shows "convert pam = Inr (concat (replicate 1024 [CHR 0x40, CHR 0x10, CHR 0x20, CHR 0x30]))"
proof -
  have "length (concat (replicate n [CHR 0x10, CHR 0x20, CHR 0x30, CHR 0x40])) = 4 * n" for n
    by (induction n) simp_all
  then have "length (concat (replicate 1024 [CHR 0x10, CHR 0x20, CHR 0x30, CHR 0x40])) = 4096"
    by simp
  with convert_first_occurrence [OF assms] show ?thesis
    by (simp add: permute_groups_replicate)
qed

theorem convert_concrete_scenario_witness:
  "convert (''P7\<newline>WIDTH 32\<newline>HEIGHT 32\<newline>DEPTH 4\<newline>MAXVAL 255\<newline>TUPLTYPE RGB_ALPHA''
       @ END_HEADER_CHUNK @ concat (replicate 1024 [CHR 0x10, CHR 0x20, CHR 0x30, CHR 0x40]))
   = Inr (concat (replicate 1024 [CHR 0x40, CHR 0x10, CHR 0x20, CHR 0x30]))"
proof -
  let ?hdr = "''P7\<newline>WIDTH 32\<newline>HEIGHT 32\<newline>DEPTH 4\<newline>MAXVAL 255\<newline>TUPLTYPE RGB_ALPHA''"
  let ?payload = "concat (replicate 1024 [CHR 0x10, CHR 0x20, CHR 0x30, CHR 0x40])"
  have sig: "startswith (?hdr @ END_HEADER_CHUNK @ ?payload) ''P7\<newline>''"
    by (simp add: startswith_def)
  have first: "first_occurrence END_HEADER_CHUNK (?hdr @ END_HEADER_CHUNK @ ?payload)
                 ?hdr ?payload"
    by (simp add: first_occurrence_iff END_HEADER_CHUNK_def)
  show ?thesis
    by (rule convert_concrete_scenario [OF sig first])
qed

section \<open>The loop on its own\<close>

text \<open>
  Claim C7. Once the payload is known to be 4096 bytes long, the loop returns normally: it
  leaves through the \<open>break\<close> with every byte of the payload consumed and as many bytes
  emitted, so the \<open>StopIteration\<close> of a group cut short is not reached. On a payload
  whose length is not a multiple of 4 the loop does not return a short output: it raises
  \<open>StopIteration\<close>.
\<close>

theorem rearrange_total_on_validated:
  "(length payload = 4096 \<longrightarrow>
      rearrange payload [] = Inr (permute_groups payload)
      \<and> length (permute_groups payload) = length payload
      \<and> rearrange payload [] \<noteq> Inl StopIteration)
   \<and> (length payload mod 4 \<noteq> 0 \<longrightarrow> rearrange payload acc = Inl StopIteration)"
  by (simp add: rearrange_eq length_permute_groups)

theorem rearrange_total_on_validated_witness:
  "length (replicate 4096 (CHR 0x07)) = 4096
   \<and> rearrange (replicate 4096 (CHR 0x07)) [] = Inr (permute_groups (replicate 4096 (CHR 0x07)))
   \<and> length (permute_groups (replicate 4096 (CHR 0x07))) = 4096
   \<and> length [CHR 0x01, CHR 0x02, CHR 0x03, CHR 0x04, CHR 0x05] mod 4 \<noteq> 0
   \<and> rearrange [CHR 0x01, CHR 0x02, CHR 0x03, CHR 0x04, CHR 0x05] [] = Inl StopIteration"
  using rearrange_total_on_validated [of "replicate 4096 (CHR 0x07)" "[]"]
    rearrange_total_on_validated [of "[CHR 0x01, CHR 0x02, CHR 0x03, CHR 0x04, CHR 0x05]" "[]"]
  by simp

section \<open>The file system on failure\<close>

text \<open>
  Claim C8. When the decoder has returned a container that is rejected (bad signature,
  marker missing, or payload of the wrong length), \<open>perform_conversion\<close> ends with an
  exception and leaves the file system as it found it: the output file is not opened, so
  the log of file operations and the contents of every file, the output path included, are
  unchanged.
\<close>

theorem no_output_on_failure:
  assumes "png2pam pngtopam input_png_path = Inr pam"
    and "\<not> startswith pam ''P7\<newline>''
         \<or> \<not> sublist END_HEADER_CHUNK pam
         \<or> (\<exists>pre payload. first_occurrence END_HEADER_CHUNK pam pre payload
               \<and> length payload \<noteq> 4096)"
  shows "\<exists>e. perform_conversion pngtopam input_png_path output_bin_path w = (Some e, w)"
proof -
  have "\<exists>e. convert pam = Inl e"
  proof (cases "startswith pam ''P7\<newline>''")
    case False
    then show ?thesis by (simp add: convert_eq)
  next
    case sig: True
    show ?thesis
    proof (cases "find_sub END_HEADER_CHUNK pam")
      case None
      with sig show ?thesis by (simp add: convert_eq)
    next
      case (Some i)
      then have "sublist END_HEADER_CHUNK pam"
        using find_sub_None_iff [of END_HEADER_CHUNK pam] by simp
      with assms(2) sig obtain pre payload
        where "first_occurrence END_HEADER_CHUNK pam pre payload" "length payload \<noteq> 4096"
        by blast
      with convert_first_occurrence [OF sig] show ?thesis
        by simp
    qed
  qed
  with assms(1) show ?thesis
    by (auto simp: perform_conversion_def)
qed

theorem no_output_on_failure_witness:
  "(\<exists>e. perform_conversion (\<lambda>p. Inr ''GIF89a'') ''icon.png'' ''icon.bin''
          \<lparr>files = Map.empty, unwritable = {}, events = []\<rparr>
        = (Some e, \<lparr>files = Map.empty, unwritable = {}, events = []\<rparr>))
   \<and> (\<exists>e. perform_conversion (\<lambda>p. Inr ''P7\<newline>WIDTH 32\<newline>'') ''icon.png'' ''icon.bin''
          \<lparr>files = Map.empty, unwritable = {}, events = []\<rparr>
        = (Some e, \<lparr>files = Map.empty, unwritable = {}, events = []\<rparr>))
   \<and> (\<exists>e. perform_conversion (\<lambda>p. Inr (''P7'' @ END_HEADER_CHUNK @ ''0123456789abcdef''))
          ''icon.png'' ''icon.bin'' \<lparr>files = Map.empty, unwritable = {}, events = []\<rparr>
        = (Some e, \<lparr>files = Map.empty, unwritable = {}, events = []\<rparr>))"
proof -
  let ?w = "\<lparr>files = Map.empty, unwritable = {}, events = []\<rparr>"
  have run: "png2pam (\<lambda>p. Inr pam) ''icon.png'' = Inr pam" for pam
    by (simp add: png2pam_def)
  have a: "\<not> startswith ''GIF89a'' ''P7\<newline>''"
    by (simp add: startswith_def)
  have "find_sub END_HEADER_CHUNK ''P7\<newline>WIDTH 32\<newline>'' = None"
    by (simp add: END_HEADER_CHUNK_def)
  then have b: "\<not> sublist END_HEADER_CHUNK ''P7\<newline>WIDTH 32\<newline>''"
    using find_sub_None_iff by blast
  have "first_occurrence END_HEADER_CHUNK (''P7'' @ END_HEADER_CHUNK @ ''0123456789abcdef'')
          ''P7'' ''0123456789abcdef''"
    by (simp add: first_occurrence_iff END_HEADER_CHUNK_def)
  moreover have "length ''0123456789abcdef'' \<noteq> 4096"
    by simp
  ultimately have c: "\<exists>pre payload.
      first_occurrence END_HEADER_CHUNK (''P7'' @ END_HEADER_CHUNK @ ''0123456789abcdef'')
        pre payload \<and> length payload \<noteq> 4096"
    by blast
  show ?thesis
    using no_output_on_failure [OF run, of "''GIF89a''" "''icon.bin''" ?w] a
      no_output_on_failure [OF run, of "''P7\<newline>WIDTH 32\<newline>''" "''icon.bin''" ?w] b
      no_output_on_failure [OF run,
        of "''P7'' @ END_HEADER_CHUNK @ ''0123456789abcdef''" "''icon.bin''" ?w] c
    by blast
qed

section \<open>The header and the position of the marker\<close>

text \<open>
  Claim C9. For a container that starts with the signature and whose first marker is
  followed by exactly 4096 payload bytes, the conversion succeeds and the output is a
  function of the payload alone. The bytes before the marker (width, height, depth,
  maxval, tuple type) do not appear in the result: no header field is read.
\<close>

theorem convert_ignores_header:
  assumes "startswith pam ''P7\<newline>''"
    and "first_occurrence END_HEADER_CHUNK pam pre payload"
    and "length payload = 4096"
  shows "convert pam = Inr (permute_groups payload)"
  using convert_first_occurrence [OF assms(1,2)] assms(3) by simp

theorem convert_ignores_header_witness:
  "convert (''P7\<newline>WIDTH 1\<newline>HEIGHT 1\<newline>DEPTH 1\<newline>MAXVAL 1\<newline>TUPLTYPE BLACKANDWHITE''
       @ END_HEADER_CHUNK @ replicate 4096 (CHR 0x80))
     = Inr (permute_groups (replicate 4096 (CHR 0x80)))
   \<and> convert (''P7\<newline>not a header at all'' @ END_HEADER_CHUNK @ replicate 4096 (CHR 0x80))
     = Inr (permute_groups (replicate 4096 (CHR 0x80)))"
proof -
  let ?h1 = "''P7\<newline>WIDTH 1\<newline>HEIGHT 1\<newline>DEPTH 1\<newline>MAXVAL 1\<newline>TUPLTYPE BLACKANDWHITE''"
  let ?h2 = "''P7\<newline>not a header at all''"
  let ?payload = "replicate 4096 (CHR 0x80)"
  have sig1: "startswith (?h1 @ END_HEADER_CHUNK @ ?payload) ''P7\<newline>''"
    by (simp add: startswith_def)
  have sig2: "startswith (?h2 @ END_HEADER_CHUNK @ ?payload) ''P7\<newline>''"
    by (simp add: startswith_def)
  have first1: "first_occurrence END_HEADER_CHUNK (?h1 @ END_HEADER_CHUNK @ ?payload) ?h1 ?payload"
    by (simp add: first_occurrence_iff END_HEADER_CHUNK_def)
  have first2: "first_occurrence END_HEADER_CHUNK (?h2 @ END_HEADER_CHUNK @ ?payload) ?h2 ?payload"
    by (simp add: first_occurrence_iff END_HEADER_CHUNK_def)
  have len: "length ?payload = 4096"
    by simp
  show ?thesis
    using convert_ignores_header [OF sig1 first1 len] convert_ignores_header [OF sig2 first2 len]
    by blast
qed

text \<open>
  Claim C10. The boundary between header and payload is the first occurrence of the marker
  in the whole container. When the marker occurs again at a later position, \<open>index\<close>
  still returns the first position, the payload is everything after the first occurrence,
  and the length check counts all of it; a later occurrence that does not overlap the first
  lies inside the payload with all of its 8 bytes.
\<close>

theorem boundary_is_first_marker:
  assumes "startswith pam ''P7\<newline>''"
    and "first_occurrence END_HEADER_CHUNK pam pre payload"
    and "pam = p @ END_HEADER_CHUNK @ q" and "length pre < length p"
  shows "bytes_index pam END_HEADER_CHUNK = Inr (length pre)
    \<and> payload = drop (length pre + length END_HEADER_CHUNK) pam
    \<and> convert pam =
       (if length payload = 4096 then Inr (permute_groups payload)
        else Inl (ValueError
               ''PAM payload has the wrong length, is this a 32x32 ARGB8888 icon?''))
    \<and> (length pre + length END_HEADER_CHUNK \<le> length p \<longrightarrow>
         suffix (END_HEADER_CHUNK @ q) payload)"
proof -
  from assms(2) have pam: "pam = pre @ END_HEADER_CHUNK @ payload"
    and found: "find_sub END_HEADER_CHUNK pam = Some (length pre)"
    unfolding first_occurrence_iff by blast+
  from found have index: "bytes_index pam END_HEADER_CHUNK = Inr (length pre)"
    by (simp add: bytes_index_def)
  have payload: "payload = drop (length pre + length END_HEADER_CHUNK) pam"
    by (subst pam) simp
  have later: "suffix (END_HEADER_CHUNK @ q) payload"
    if "length pre + length END_HEADER_CHUNK \<le> length p"
  proof -
    have "payload = drop (length pre + length END_HEADER_CHUNK) (p @ END_HEADER_CHUNK @ q)"
      using payload assms(3) by simp
    also have "\<dots> = drop (length pre + length END_HEADER_CHUNK) p @ END_HEADER_CHUNK @ q"
      using that by simp
    finally show ?thesis
      by (simp add: suffix_def)
  qed
  from index payload later convert_first_occurrence [OF assms(1,2)] show ?thesis
    by blast
qed

theorem boundary_is_first_marker_witness:
  "convert (''P7'' @ END_HEADER_CHUNK @ ''abcd'' @ END_HEADER_CHUNK @ replicate 4084 (CHR 0x00))
     = Inr (permute_groups (''abcd'' @ END_HEADER_CHUNK @ replicate 4084 (CHR 0x00)))
   \<and> convert (''P7'' @ END_HEADER_CHUNK @ ''abcd'' @ END_HEADER_CHUNK @ replicate 4096 (CHR 0x00))
     = Inl (ValueError ''PAM payload has the wrong length, is this a 32x32 ARGB8888 icon?'')"
proof -
  let ?pam = "\<lambda>tail. ''P7'' @ END_HEADER_CHUNK @ ''abcd'' @ END_HEADER_CHUNK @ tail"
  let ?payload = "\<lambda>tail. ''abcd'' @ END_HEADER_CHUNK @ tail"
  have sig: "startswith (?pam tail) ''P7\<newline>''" for tail
    by (simp add: startswith_def END_HEADER_CHUNK_def)
  have first: "first_occurrence END_HEADER_CHUNK (?pam tail) ''P7'' (?payload tail)" for tail
    by (simp add: first_occurrence_iff END_HEADER_CHUNK_def)
  have second: "?pam tail = (''P7'' @ END_HEADER_CHUNK @ ''abcd'') @ END_HEADER_CHUNK @ tail"
    for tail
    by simp
  have later: "length ''P7'' < length (''P7'' @ END_HEADER_CHUNK @ ''abcd'')"
    by simp
  have l1: "length (?payload (replicate 4084 (CHR 0x00))) = 4096"
    by (simp add: END_HEADER_CHUNK_def)
  have l2: "length (?payload (replicate 4096 (CHR 0x00))) \<noteq> 4096"
    by (simp add: END_HEADER_CHUNK_def)
  show ?thesis
    using boundary_is_first_marker [OF sig first second later, of "replicate 4084 (CHR 0x00)"]
      boundary_is_first_marker [OF sig first second later, of "replicate 4096 (CHR 0x00)"]
      l1 l2
    by (simp only: if_True if_False simp_thms)
qed

end
